theory Spec2Isabelle
  imports Complex_Main "HOL-Library.AList" "HOL-Library.Char_ord" "HOL-Library.List_Lexorder"
    "HOL-Library.Multiset"
begin

section \<open>Python primitives used by model_importer.py\<close>

text \<open>
  Exceptions are values: a function that can raise returns \<open>py_error + 'a\<close>, with
  \<open>Inl\<close> the exception that leaves the function. Only \<open>ValueError\<close> is caught
  anywhere in the module (line 96); every other exception ends the run.
\<close>

datatype py_error = ValueError | KeyError | IndexError | AttributeError
  | ZeroDivisionError | UnboundLocalError

text \<open>
  Strings are byte strings (ASCII); \<open>str.strip\<close>, \<open>int\<close>, \<open>str\<close>, \<open>str.upper\<close>,
  \<open>str.lower\<close>, \<open>str.split\<close>, \<open>in\<close>, \<open>str.replace\<close>, \<open>str.endswith\<close> and
  \<open>str.join\<close> are modelled on ASCII input.
\<close>

definition is_space :: "char \<Rightarrow> bool" where
  "is_space c = (c \<in> set [CHR '' '', CHR 0x09, CHR 0x0A, CHR 0x0B, CHR 0x0C, CHR 0x0D,
                           CHR 0x1C, CHR 0x1D, CHR 0x1E, CHR 0x1F])"

definition strip :: "string \<Rightarrow> string" where
  "strip s = rev (dropWhile is_space (rev (dropWhile is_space s)))"

definition is_digit :: "char \<Rightarrow> bool" where
  "is_digit c = (c \<in> set ''0123456789'')"

definition digit_val :: "char \<Rightarrow> nat" where
  "digit_val c = (case map_of (zip ''0123456789'' [0, 1, 2, 3, 4, 5, 6, 7, 8, 9]) c of
                    Some n \<Rightarrow> n | None \<Rightarrow> 0)"

definition digit_char :: "nat \<Rightarrow> char" where
  "digit_char n = ''0123456789'' ! n"

text \<open>The digits of \<open>int(s)\<close>: decimal digits, single underscores allowed between digits.\<close>

fun parse_digits :: "nat \<Rightarrow> string \<Rightarrow> nat option" where
  "parse_digits acc [] = Some acc"
| "parse_digits acc (c # cs) =
     (if is_digit c then parse_digits (10 * acc + digit_val c) cs
      else if c = CHR ''_'' \<and> cs \<noteq> [] \<and> is_digit (hd cs) then parse_digits acc cs
      else None)"

text \<open>\<open>int(s)\<close> for a string: \<open>None\<close> stands for the ValueError it raises.\<close>

definition py_int :: "string \<Rightarrow> int option" where
  "py_int s =
     (let t = strip s;
          neg = (t \<noteq> [] \<and> hd t = CHR ''-'');
          body = (if t \<noteq> [] \<and> (hd t = CHR ''-'' \<or> hd t = CHR ''+'') then tl t else t)
      in if body = [] \<or> \<not> is_digit (hd body) then None
         else map_option (\<lambda>n. if neg then - int n else int n) (parse_digits 0 body))"

fun str_nat :: "nat \<Rightarrow> string" where
  "str_nat n = (if n < 10 then [digit_char n] else str_nat (n div 10) @ [digit_char (n mod 10)])"

declare str_nat.simps [simp del]

definition str_int :: "int \<Rightarrow> string" where
  "str_int i = (if i < 0 then CHR ''-'' # str_nat (nat (- i)) else str_nat (nat i))"

definition upper_char :: "char \<Rightarrow> char" where
  "upper_char c = (case map_of (zip ''abcdefghijklmnopqrstuvwxyz'' ''ABCDEFGHIJKLMNOPQRSTUVWXYZ'') c of
                     Some u \<Rightarrow> u | None \<Rightarrow> c)"

definition lower_char :: "char \<Rightarrow> char" where
  "lower_char c = (case map_of (zip ''ABCDEFGHIJKLMNOPQRSTUVWXYZ'' ''abcdefghijklmnopqrstuvwxyz'') c of
                     Some u \<Rightarrow> u | None \<Rightarrow> c)"

definition upper :: "string \<Rightarrow> string" where
  "upper s = map upper_char s"

definition lower :: "string \<Rightarrow> string" where
  "lower s = map lower_char s"

text \<open>\<open>s.split(sep)\<close> for a one-character separator: always at least one piece.\<close>

fun split :: "char \<Rightarrow> string \<Rightarrow> string list" where
  "split sep [] = [[]]"
| "split sep (c # cs) =
     (if c = sep then [] # split sep cs
      else (case split sep cs of p # ps \<Rightarrow> (c # p) # ps | [] \<Rightarrow> [[c]]))"

text \<open>\<open>sub in s\<close> on strings.\<close>

fun contains :: "string \<Rightarrow> string \<Rightarrow> bool" where
  "contains sub [] = (sub = [])"
| "contains sub (c # cs) = (take (length sub) (c # cs) = sub \<or> contains sub cs)"

text \<open>\<open>s.replace(old, new)\<close> for a non-empty \<open>old\<close>: leftmost non-overlapping occurrences.\<close>

fun replace :: "string \<Rightarrow> string \<Rightarrow> string \<Rightarrow> string" where
  "replace (a # old) new (c # cs) =
     (if take (Suc (length old)) (c # cs) = a # old
      then new @ replace (a # old) new (drop (length old) cs)
      else c # replace (a # old) new cs)"
| "replace old new s = s"

definition endswith :: "string \<Rightarrow> string \<Rightarrow> bool" where
  "endswith s suf = (length suf \<le> length s \<and> drop (length s - length suf) s = suf)"

fun join :: "string \<Rightarrow> string list \<Rightarrow> string" where
  "join sep [] = []"
| "join sep [p] = p"
| "join sep (p # q # ps) = p @ sep @ join sep (q # ps)"

text \<open>\<open>max(xs)\<close> on a list: ValueError when the list is empty.\<close>

fun py_max :: "'a::linorder list \<Rightarrow> py_error + 'a" where
  "py_max [] = Inl ValueError"
| "py_max (x # xs) = Inr (fold max xs x)"



text \<open>
  A dict is an association list with distinct keys in insertion order:
  \<open>d[k] = v\<close> is \<open>AList.update k v d\<close> (in place when the key is there, appended
  otherwise), \<open>d.get(k)\<close> is \<open>map_of d k\<close>. Two dicts are equal when they hold the same
  items, whatever the order.
\<close>

definition dict_eq :: "('k \<times> 'v) list \<Rightarrow> ('k \<times> 'v) list \<Rightarrow> bool" where
  "dict_eq a b = (set a = set b)"

text \<open>
  \<open>xs[1:] != xs[:-1]\<close>, the module's test for "the elements are not all equal", for a
  list of values and for a list of dicts.
\<close>

definition all_same :: "'a list \<Rightarrow> bool" where
  "all_same xs = (tl xs = butlast xs)"

definition all_same_dicts :: "('k \<times> 'v) list list \<Rightarrow> bool" where
  "all_same_dicts xs = list_all2 dict_eq (tl xs) (butlast xs)"

text \<open>Running a fallible function over a list, in order, stopping at the first exception.\<close>

fun mapM :: "('a \<Rightarrow> py_error + 'b) \<Rightarrow> 'a list \<Rightarrow> py_error + 'b list" where
  "mapM f [] = Inr []"
| "mapM f (x # xs) =
     (case f x of Inl e \<Rightarrow> Inl e
      | Inr y \<Rightarrow> (case mapM f xs of Inl e \<Rightarrow> Inl e | Inr ys \<Rightarrow> Inr (y # ys)))"

section \<open>normalize_reg_name (lines 13-19)\<close>

text \<open>\<open>re.sub(r'{K([0-7])}', r'K\1', s)\<close> and \<open>re.sub(r'ST\(([0-7])\)', r'ST\1', s)\<close>.\<close>

fun sub_mask :: "string \<Rightarrow> string" where
  "sub_mask (a # b # c # d # rest) =
     (if a = CHR ''{'' \<and> b = CHR ''K'' \<and> c \<in> set ''01234567'' \<and> d = CHR ''}''
      then CHR ''K'' # c # sub_mask rest
      else a # sub_mask (b # c # d # rest))"
| "sub_mask s = s"

fun sub_st :: "string \<Rightarrow> string" where
  "sub_st (a # b # c # d # e # rest) =
     (if a = CHR ''S'' \<and> b = CHR ''T'' \<and> c = CHR ''('' \<and> d \<in> set ''01234567'' \<and> e = CHR '')''
      then CHR ''S'' # CHR ''T'' # d # sub_st rest
      else a # sub_st (b # c # d # e # rest))"
| "sub_st s = s"

definition normalize_reg_name :: "string \<Rightarrow> string" where
  "normalize_reg_name reg_name = sub_st (sub_mask (strip reg_name))"

section \<open>port_occupancy_from_tag_attributes (lines 22-43)\<close>

text \<open>
  Occupancy values are Python floats (and ints); they are modelled as exact rationals, so
  the rounding of a float division or sum is not part of the model.
\<close>

type_synonym occupancy = "(string \<times> rat) list"

text \<open>\<open>re.match('^port([0-9]+)', k)\<close>: the digits captured, \<open>None\<close> when there is no match.\<close>

definition port_match :: "string \<Rightarrow> string option" where
  "port_match k =
     (if take 4 k = ''port'' \<and> takeWhile is_digit (drop 4 k) \<noteq> []
      then Some (takeWhile is_digit (drop 4 k)) else None)"

text \<open>Lines 32-34: the candidate ports of a counter, port 7 dropped from "237".\<close>

definition potential_ports :: "string \<Rightarrow> string \<Rightarrow> string list" where
  "potential_ports arch ports =
     map (\<lambda>c. [c])
       (if arch \<in> set [''HSW'', ''BDW'', ''SKL'', ''SKX''] \<and> ports = ''237''
        then filter (\<lambda>c. c \<noteq> CHR ''7'') ports else ports)"

text \<open>\<open>occupancy[pp]\<close> on the \<open>defaultdict(int)\<close>.\<close>

definition occ_get :: "occupancy \<Rightarrow> string \<Rightarrow> rat" where
  "occ_get occ pp = (case map_of occ pp of Some x \<Rightarrow> x | None \<Rightarrow> 0)"

text \<open>Lines 36-37.\<close>

definition add_occupancy :: "string list \<Rightarrow> rat \<Rightarrow> occupancy \<Rightarrow> occupancy" where
  "add_occupancy pps x occ = fold (\<lambda>pp d. AList.update pp (occ_get d pp + x) d) pps occ"

text \<open>Lines 24-37: the loop over \<open>attrib.items()\<close>.\<close>

fun occupancy_loop :: "string \<Rightarrow> (string \<times> string) list \<Rightarrow> occupancy \<Rightarrow> py_error + occupancy" where
  "occupancy_loop arch [] occ = Inr occ"
| "occupancy_loop arch ((k, v) # rest) occ =
     (case port_match k of
        None \<Rightarrow> occupancy_loop arch rest occ
      | Some ports \<Rightarrow>
          (case py_int v of
             None \<Rightarrow> Inl ValueError
           | Some n \<Rightarrow>
               if potential_ports arch ports = [] then Inl ZeroDivisionError
               else occupancy_loop arch rest
                      (add_occupancy (potential_ports arch ports)
                         (of_int n / of_nat (length (potential_ports arch ports))) occ)))"

definition port_occupancy_from_tag_attributes ::
    "(string \<times> string) list \<Rightarrow> string \<Rightarrow> py_error + occupancy" where
  "port_occupancy_from_tag_attributes attrib arch =
     (case occupancy_loop arch attrib [] of
        Inl e \<Rightarrow> Inl e
      | Inr occ \<Rightarrow>
          (case map_of attrib ''div_cycles'' of
             None \<Rightarrow> Inr occ
           | Some d \<Rightarrow>
               (case py_int d of
                  None \<Rightarrow> Inl ValueError
                | Some n \<Rightarrow> Inr (AList.update ''0DV'' (of_int n) occ))))"


section \<open>The input document\<close>

text \<open>
  An \<open>xml.etree.ElementTree\<close> element: its tag, its attribute dict, its text
  (\<open>None\<close> when there is none) and its children in document order. The tree handed to
  \<open>extract_model\<close> is its root element.
\<close>

datatype element = Element (tag: string) (attrib: "(string \<times> string) list")
  (etext: "string option") (children: "element list")

text \<open>\<open>e.iter(t)\<close>: the element and its descendants with tag \<open>t\<close>, in document order.\<close>

fun iter_all :: "element \<Rightarrow> element list" where
  "iter_all (Element t a x cs) = Element t a x cs # concat (map iter_all cs)"

definition iter :: "string \<Rightarrow> element \<Rightarrow> element list" where
  "iter t e = filter (\<lambda>d. tag d = t) (iter_all e)"

text \<open>\<open>e.findall(t)\<close>: the children with tag \<open>t\<close>.\<close>

definition findall :: "string \<Rightarrow> element \<Rightarrow> element list" where
  "findall t e = filter (\<lambda>c. tag c = t) (children e)"

text \<open>\<open>tree.findall('//' + t)\<close>: the descendants of the root with tag \<open>t\<close>.\<close>

definition findall_descendants :: "string \<Rightarrow> element \<Rightarrow> element list" where
  "findall_descendants t tree = concat (map (iter t) (children tree))"

text \<open>
  \<open>e.find('architecture[@name="' + arch + '"]')\<close>: the first child with that tag and
  attribute value (for an \<open>arch\<close> without quotes or brackets).
\<close>

definition find_architecture :: "string \<Rightarrow> element \<Rightarrow> element option" where
  "find_architecture arch e =
     List.find (\<lambda>c. tag c = ''architecture'' \<and> map_of (attrib c) ''name'' = Some arch) (children e)"

section \<open>extract_paramters (lines 46-83)\<close>

text \<open>
  \<open>Register.sizes\<close> of \<open>osaca.param\<close> is not part of the module: it is the parameter
  \<open>sizes\<close>, from a register name to its (bit width, class) pair.
\<close>

type_synonym reg_sizes = "string \<Rightarrow> (int \<times> string) option"

text \<open>The sort key of line 50.\<close>

definition operand_idx :: "element \<Rightarrow> py_error + int" where
  "operand_idx p =
     (case map_of (attrib p) ''idx'' of
        None \<Rightarrow> Inl KeyError
      | Some s \<Rightarrow> (case py_int s of None \<Rightarrow> Inl ValueError | Some n \<Rightarrow> Inr n))"

text \<open>Lines 49-50: \<open>sorted\<close> computes every key first, then sorts stably.\<close>

definition parameter_tags :: "element \<Rightarrow> py_error + element list" where
  "parameter_tags instruction_tag =
     (let ops = findall ''operand'' instruction_tag
      in case mapM operand_idx ops of
           Inl e \<Rightarrow> Inl e
         | Inr keys \<Rightarrow> Inr (map snd (sort_key fst (zip keys ops))))"

text \<open>Line 53: \<open>int(parameter_tag.attrib.get('suppressed', '0'))\<close>, \<open>None\<close> for its ValueError.\<close>

definition suppressed :: "element \<Rightarrow> int option" where
  "suppressed parameter_tag =
     py_int (case map_of (attrib parameter_tag) ''suppressed'' of None \<Rightarrow> ''0'' | Some s \<Rightarrow> s)"

text \<open>Lines 51-82: the loop over the sorted operands, \<open>parameters\<close> the list built so far.\<close>

fun parameter_loop :: "reg_sizes \<Rightarrow> element list \<Rightarrow> string list \<Rightarrow> py_error + string list" where
  "parameter_loop sizes [] parameters = Inr parameters"
| "parameter_loop sizes (parameter_tag # rest) parameters =
     (case suppressed parameter_tag of
        None \<Rightarrow> Inl ValueError
      | Some n \<Rightarrow>
          if n \<noteq> 0 then parameter_loop sizes rest parameters
          else (case map_of (attrib parameter_tag) ''type'' of
            None \<Rightarrow> Inl KeyError
          | Some p_type \<Rightarrow>
              if p_type = ''imm'' then parameter_loop sizes rest (parameters @ [''imd''])
              else if p_type = ''mem'' then parameter_loop sizes rest (parameters @ [''mem''])
              else if p_type = ''reg'' then
                (case etext parameter_tag of
                   None \<Rightarrow> Inl AttributeError
                 | Some txt \<Rightarrow>
                     (let possible_regs = map normalize_reg_name (split CHR '','' txt);
                          reg_groups = map sizes possible_regs
                      in if tl reg_groups = butlast reg_groups then
                           (case reg_groups of
                              [] \<Rightarrow> Inl IndexError
                            | None # _ \<Rightarrow> Inl ValueError
                            | Some (width, cls) # _ \<Rightarrow>
                                if cls = ''GPR'' then
                                  parameter_loop sizes rest (parameters @ [CHR ''r'' # str_int width])
                                else if CHR ''{'' \<in> set txt then
                                  (if parameters = [] then Inl IndexError
                                   else parameter_loop sizes rest
                                          (butlast parameters @ [last parameters @ ''{opmask}'']))
                                else parameter_loop sizes rest (parameters @ [lower cls]))
                         else parameter_loop sizes rest parameters))
              else if p_type = ''relbr'' then parameter_loop sizes rest (parameters @ [''LBL''])
              else if p_type = ''agen'' then parameter_loop sizes rest (parameters @ [''mem''])
              else Inl ValueError))"

definition extract_paramters :: "reg_sizes \<Rightarrow> element \<Rightarrow> py_error + string list" where
  "extract_paramters sizes instruction_tag =
     (case parameter_tags instruction_tag of
        Inl e \<Rightarrow> Inl e
      | Inr tags \<Rightarrow> parameter_loop sizes tags [])"

section \<open>build_variants (lines 140-165)\<close>

definition all_or_false :: "bool list \<Rightarrow> bool" where
  "all_or_false iterator = (if iterator = [] then False else list_all (\<lambda>b. b) iterator)"

definition suffixes :: "(char \<times> string) list" where
  "suffixes = [(CHR ''Q'', ''r64''), (CHR ''L'', ''r32''), (CHR ''W'', ''r16''), (CHR ''B'', ''r8'')]"

text \<open>The generator, as the list of the pairs it yields, in order.\<close>

definition build_variants :: "string \<Rightarrow> string list \<Rightarrow> (string \<times> string list) list" where
  "build_variants mnemonic0 parameters =
     (let mnemonic = upper mnemonic0
      in [(mnemonic, parameters)]
         @ (if list_ex (contains ''{opmask}'') parameters
            then [(mnemonic, map (replace ''{opmask}'' '''') parameters)] else [])
         @ concat (map (\<lambda>(s, reg).
              if \<not> endswith mnemonic [s]
                 \<and> all_or_false (map (\<lambda>p. p = reg)
                                  (filter (\<lambda>p. p \<notin> set [''mem'', ''imd'']) parameters))
              then [(mnemonic @ [s], parameters)] else []) suffixes))"

section \<open>extract_model (lines 86-137)\<close>

text \<open>
  \<open>distutils.version.StrictVersion\<close>: a version string \<open>N.N[.N][(a|b)N]\<close> (a final
  newline is tolerated by the pattern's \<open>$\<close>), \<open>None\<close> for the ValueError of any other
  string. Versions compare by (major, minor, patch), then a pre-release before the
  release without one, then by (letter, number). The key
  \<open>[major, minor, patch, release, letter, number]\<close> has that order as lists.
\<close>

definition nat_of_digits :: "string \<Rightarrow> nat" where
  "nat_of_digits ds = foldl (\<lambda>acc c. 10 * acc + digit_val c) 0 ds"

definition prerelease_key :: "string \<Rightarrow> nat list option" where
  "prerelease_key s =
     (if s = [] then Some [1, 0, 0]
      else if (hd s = CHR ''a'' \<or> hd s = CHR ''b'') \<and> tl s \<noteq> [] \<and> list_all is_digit (tl s)
      then Some [0, if hd s = CHR ''a'' then 0 else 1, nat_of_digits (tl s)]
      else None)"

definition StrictVersion :: "string \<Rightarrow> nat list option" where
  "StrictVersion vstring =
     (let s = (if vstring \<noteq> [] \<and> last vstring = CHR 0x0A then butlast vstring else vstring);
          major = takeWhile is_digit s;
          r1 = dropWhile is_digit s
      in if major = [] \<or> r1 = [] \<or> hd r1 \<noteq> CHR ''.'' then None
         else (let minor = takeWhile is_digit (tl r1);
                   r2 = dropWhile is_digit (tl r1)
               in if minor = [] then None
                  else if r2 \<noteq> [] \<and> hd r2 = CHR ''.'' \<and> takeWhile is_digit (tl r2) \<noteq> []
                  then map_option (\<lambda>pre. [nat_of_digits major, nat_of_digits minor,
                                           nat_of_digits (takeWhile is_digit (tl r2))] @ pre)
                         (prerelease_key (dropWhile is_digit (tl r2)))
                  else map_option (\<lambda>pre. [nat_of_digits major, nat_of_digits minor, 0] @ pre)
                         (prerelease_key r2)))"

text \<open>What the run prints on the diagnostic stream (\<open>sys.stderr\<close>), line by line.\<close>

datatype diagnostic = ParameterError
  | ContradictingLatencies string
  | ContradictingPorts string

text \<open>Lines 108-109: the latency samples of one measurement record.\<close>

definition latencies_of :: "element \<Rightarrow> py_error + int list" where
  "latencies_of measurement_tag =
     mapM (\<lambda>l_tag. case map_of (attrib l_tag) ''cycles'' of
                      None \<Rightarrow> Inl KeyError
                    | Some s \<Rightarrow> (case py_int s of None \<Rightarrow> Inl ValueError | Some n \<Rightarrow> Inr n))
       (filter (\<lambda>l_tag. map_of (attrib l_tag) ''latency'' \<noteq> None)
          (iter ''latency'' measurement_tag))"

text \<open>The variables of lines 89 and 100 that the measurement loop updates, and what it prints.\<close>

record collected =
  port_occupancy :: "occupancy list"
  latency :: "int option"
  ignore :: bool
  printed :: "diagnostic list"

text \<open>Lines 105-115.\<close>

fun measurement_loop :: "string \<Rightarrow> string \<Rightarrow> element list \<Rightarrow> collected \<Rightarrow> py_error + collected" where
  "measurement_loop arch mnemonic [] c = Inr c"
| "measurement_loop arch mnemonic (measurement_tag # rest) c =
     (case port_occupancy_from_tag_attributes (attrib measurement_tag) arch of
        Inl e \<Rightarrow> Inl e
      | Inr po \<Rightarrow>
          (case latencies_of measurement_tag of
             Inl e \<Rightarrow> Inl e
           | Inr latencies \<Rightarrow>
               measurement_loop arch mnemonic rest
                 (if \<not> all_same latencies
                  then c\<lparr>port_occupancy := port_occupancy c @ [po], ignore := True,
                         printed := printed c @ [ContradictingLatencies mnemonic]\<rparr>
                  else if latencies \<noteq> []
                  then c\<lparr>port_occupancy := port_occupancy c @ [po], latency := Some (hd latencies)\<rparr>
                  else c\<lparr>port_occupancy := port_occupancy c @ [po]\<rparr>)))"

text \<open>Lines 117-118: the analyzer records sorted by version, every key computed first.\<close>

definition sorted_iaca :: "element \<Rightarrow> py_error + element list" where
  "sorted_iaca arch_tag =
     (let tags = iter ''IACA'' arch_tag
      in case mapM (\<lambda>i. case map_of (attrib i) ''version'' of
                           None \<Rightarrow> Inl KeyError
                         | Some v \<Rightarrow> (case StrictVersion v of
                                        None \<Rightarrow> Inl ValueError | Some k \<Rightarrow> Inr k)) tags of
           Inl e \<Rightarrow> Inl e
         | Inr keys \<Rightarrow> Inr (map snd (sort_key fst (zip keys tags))))"

text \<open>
  Lines 105-119: every port-occupancy vector of the instruction, measurements first, then
  the analyzer records by ascending version.
\<close>

definition collect :: "string \<Rightarrow> string \<Rightarrow> element \<Rightarrow> py_error + collected" where
  "collect arch mnemonic arch_tag =
     (case measurement_loop arch mnemonic (iter ''measurement'' arch_tag)
             \<lparr>port_occupancy = [], latency = None, ignore = False, printed = []\<rparr> of
        Inl e \<Rightarrow> Inl e
      | Inr c \<Rightarrow>
          (case sorted_iaca arch_tag of
             Inl e \<Rightarrow> Inl e
           | Inr iaca_tags \<Rightarrow>
               (case mapM (\<lambda>iaca_tag. port_occupancy_from_tag_attributes (attrib iaca_tag) arch)
                       iaca_tags of
                  Inl e \<Rightarrow> Inl e
                | Inr pos \<Rightarrow> Inr (c\<lparr>port_occupancy := port_occupancy c @ pos\<rparr>))))"

text \<open>
  Lines 100-131: the reconciliation of one instruction on one architecture. The result is
  what was printed and, unless the loop body ends at a \<open>continue\<close>, the throughput, the
  latency and the authoritative vector.
\<close>

definition reconcile ::
    "string \<Rightarrow> string \<Rightarrow> element \<Rightarrow> py_error + (diagnostic list \<times> (rat \<times> int option \<times> occupancy) option)" where
  "reconcile arch mnemonic arch_tag =
     (case collect arch mnemonic arch_tag of
        Inl e \<Rightarrow> Inl e
      | Inr c \<Rightarrow>
          if ignore c then Inr (printed c, None)
          else if port_occupancy c \<noteq> [] then
            (case py_max (map snd (last (port_occupancy c)) @ [0]) of
               Inl e \<Rightarrow> Inl e
             | Inr throughput \<Rightarrow>
                 Inr (printed c @ (if \<not> all_same_dicts (port_occupancy c)
                                   then [ContradictingPorts mnemonic] else []),
                      Some (throughput, latency c, last (port_occupancy c))))
          else Inr (printed c, None))"

text \<open>An entry of \<open>model_data\<close>: name, throughput, latency, port occupancy.\<close>

type_synonym entry = "string \<times> rat \<times> int option \<times> occupancy"

text \<open>An entry whose throughput is the largest occupancy of its own vector, or 0.0.\<close>

definition derived :: "entry \<Rightarrow> bool" where
  "derived e = (case e of (name, throughput, lat, po) \<Rightarrow> throughput = Max (insert 0 (snd ` set po)))"

text \<open>
  The state that survives from one instruction to the next: the table, the variable
  \<open>parameters\<close> (\<open>None\<close> while it is unbound: it is assigned only when
  \<open>extract_paramters\<close> returns) and the diagnostic stream.
\<close>

record run =
  model_data :: "entry list"
  parameters :: "string list option"
  stderr :: "diagnostic list"

text \<open>Lines 94-97: the \<open>try\<close> around \<open>extract_paramters\<close>.\<close>

definition try_parameters :: "reg_sizes \<Rightarrow> element \<Rightarrow> run \<Rightarrow> py_error + run" where
  "try_parameters sizes instruction_tag st =
     (case extract_paramters sizes instruction_tag of
        Inr ps \<Rightarrow> Inr (st\<lparr>parameters := Some ps\<rparr>)
      | Inl e \<Rightarrow> if e = ValueError
                 then Inr (st\<lparr>stderr := stderr st @ [ParameterError]\<rparr>)
                 else Inl e)"

text \<open>Lines 99-135: the reconciliation and the entries appended to the table.\<close>

definition append_entries :: "string \<Rightarrow> string \<Rightarrow> element \<Rightarrow> run \<Rightarrow> py_error + run" where
  "append_entries arch mnemonic instruction_tag st =
     (case find_architecture arch instruction_tag of
        None \<Rightarrow> Inr st
      | Some arch_tag \<Rightarrow>
          (case reconcile arch mnemonic arch_tag of
             Inl e \<Rightarrow> Inl e
           | Inr (msgs, None) \<Rightarrow> Inr (st\<lparr>stderr := stderr st @ msgs\<rparr>)
           | Inr (msgs, Some (throughput, lat, po)) \<Rightarrow>
               (case parameters st of
                  None \<Rightarrow> Inl UnboundLocalError
                | Some ps \<Rightarrow>
                    Inr (st\<lparr>stderr := stderr st @ msgs,
                            model_data := model_data st @
                              map (\<lambda>(m, p). (lower m @ ''-'' @ join ''_'' p, throughput, lat, po))
                                (build_variants mnemonic ps)\<rparr>))))"

text \<open>Lines 89-135: the body of the loop over the instructions.\<close>

definition extract_instruction :: "reg_sizes \<Rightarrow> string \<Rightarrow> element \<Rightarrow> run \<Rightarrow> py_error + run" where
  "extract_instruction sizes arch instruction_tag st =
     (case map_of (attrib instruction_tag) ''asm'' of
        None \<Rightarrow> Inl KeyError
      | Some mnemonic \<Rightarrow>
          (case try_parameters sizes instruction_tag st of
             Inl e \<Rightarrow> Inl e
           | Inr st1 \<Rightarrow> append_entries arch mnemonic instruction_tag st1))"

fun instruction_loop :: "reg_sizes \<Rightarrow> string \<Rightarrow> element list \<Rightarrow> run \<Rightarrow> py_error + run" where
  "instruction_loop sizes arch [] st = Inr st"
| "instruction_loop sizes arch (instruction_tag # rest) st =
     (case extract_instruction sizes arch instruction_tag st of
        Inl e \<Rightarrow> Inl e
      | Inr st' \<Rightarrow> instruction_loop sizes arch rest st')"

text \<open>The table returned, with what the run printed on the diagnostic stream.\<close>

definition extract_model :: "reg_sizes \<Rightarrow> element \<Rightarrow> string \<Rightarrow> py_error + (entry list \<times> diagnostic list)" where
  "extract_model sizes tree arch =
     (case instruction_loop sizes arch (findall_descendants ''instruction'' tree)
             \<lparr>model_data = [], parameters = None, stderr = []\<rparr> of
        Inl e \<Rightarrow> Inl e
      | Inr st \<Rightarrow> Inr (model_data st, stderr st))"

section \<open>dump_csv (lines 172-200)\<close>








section \<open>Example inputs\<close>

text \<open>A few entries in the shape of \<open>Register.sizes\<close>.\<close>

definition example_sizes :: reg_sizes where
  "example_sizes r =
     (if r = ''EAX'' then Some (32, ''GPR'')
      else if r = ''XMM0'' then Some (128, ''XMM'')
      else if r = ''ZMM0'' then Some (512, ''ZMM'')
      else if r = ''K1'' then Some (64, ''K'')
      else None)"

definition operand :: "string \<Rightarrow> string \<Rightarrow> string \<Rightarrow> element" where
  "operand idx ty txt = Element ''operand'' [(''idx'', idx), (''type'', ty)] (Some txt) []"

text \<open>A register operand whose alternatives are of two classes, followed by an immediate.\<close>

definition mixed_classes_instruction :: element where
  "mixed_classes_instruction =
     Element ''instruction'' [(''asm'', ''MOVD'')] None
       [operand ''1'' ''reg'' ''EAX,XMM0'', operand ''2'' ''imm'' '''']"

text \<open>An instruction whose first operand that is not suppressed is a mask register.\<close>

definition mask_first_instruction :: element where
  "mask_first_instruction =
     Element ''instruction'' [(''asm'', ''KMOVW'')] None
       [Element ''operand'' [(''idx'', ''1''), (''type'', ''reg''), (''suppressed'', ''1'')]
          (Some ''EAX'') [],
        operand ''2'' ''reg'' ''{K1}'',
        operand ''3'' ''mem'' '''']"

text \<open>
  A document whose first instruction has an operand of an unknown type and one
  measurement on SKL, followed by a well-formed instruction.
\<close>

definition unknown_operand_first_document :: element where
  "unknown_operand_first_document =
     Element ''root'' [] None
       [Element ''instruction'' [(''asm'', ''FOO'')] None
          [operand ''1'' ''flags'' '''',
           Element ''architecture'' [(''name'', ''SKL'')] None
             [Element ''measurement'' [(''port0'', ''1'')] None []]],
        Element ''instruction'' [(''asm'', ''INC'')] None
          [operand ''1'' ''reg'' ''EAX'',
           Element ''architecture'' [(''name'', ''SKL'')] None
             [Element ''measurement'' [(''port0'', ''1'')] None []]]]"

text \<open>The same two instructions in the other order.\<close>

definition unknown_operand_second_document :: element where
  "unknown_operand_second_document =
     Element ''root'' [] None (rev (children unknown_operand_first_document))"

text \<open>A measurement whose only latency sub-record carries a cycle count of 3.\<close>

definition latency_document :: element where
  "latency_document =
     Element ''root'' [] None
       [Element ''instruction'' [(''asm'', ''INC'')] None
          [operand ''1'' ''reg'' ''EAX'',
           Element ''architecture'' [(''name'', ''SKL'')] None
             [Element ''measurement'' [(''port0'', ''1'')] None
                [Element ''latency'' [(''cycles'', ''3''), (''start_op'', ''1'')] None []]]]]"

text \<open>
  An instruction measured once on SKL, the measurement holding two latency sub-records
  that carry a \<open>latency\<close> attribute and cycle counts 1 and 2, with one analyzer record
  whose vector differs from the measurement's; and a document of that instruction
  followed by a well-formed one.
\<close>

definition contradicting_architecture :: element where
  "contradicting_architecture =
     Element ''architecture'' [(''name'', ''SKL'')] None
       [Element ''measurement'' [(''port0'', ''1'')] None
          [Element ''latency'' [(''latency'', ''''), (''cycles'', ''1'')] None [],
           Element ''latency'' [(''latency'', ''''), (''cycles'', ''2'')] None []],
        Element ''IACA'' [(''version'', ''2.0''), (''port1'', ''1'')] None []]"

definition contradicting_instruction :: element where
  "contradicting_instruction =
     Element ''instruction'' [(''asm'', ''INC'')] None
       [operand ''1'' ''reg'' ''EAX'', contradicting_architecture]"

definition contradicting_document :: element where
  "contradicting_document =
     Element ''root'' [] None
       [contradicting_instruction,
        Element ''instruction'' [(''asm'', ''NOT'')] None
          [operand ''1'' ''reg'' ''EAX'',
           Element ''architecture'' [(''name'', ''SKL'')] None
             [Element ''measurement'' [(''port0'', ''1'')] None []]]]"

text \<open>
  Two analyzer records with differing vectors, version 2.1 before version 2.0 in the
  document.
\<close>

definition two_versions_architecture :: element where
  "two_versions_architecture =
     Element ''architecture'' [(''name'', ''SKL'')] None
       [Element ''IACA'' [(''version'', ''2.1''), (''port0'', ''1'')] None [],
        Element ''IACA'' [(''version'', ''2.0''), (''port1'', ''1'')] None []]"

text \<open>An instruction whose measurement has a counter on ports 2 and 3 and one on port 0.\<close>

definition split_ports_document :: element where
  "split_ports_document =
     Element ''root'' [] None
       [Element ''instruction'' [(''asm'', ''MOV'')] None
          [operand ''1'' ''reg'' ''EAX'', operand ''2'' ''mem'' '''',
           Element ''architecture'' [(''name'', ''SKL'')] None
             [Element ''measurement'' [(''port23'', ''3''), (''port0'', ''1'')] None []]]]"





section \<open>Properties of build_variants\<close>

lemma all_or_false_eq:
  "all_or_false (map (\<lambda>p. p = reg) (filter (\<lambda>p. p \<notin> set [''mem'', ''imd'']) ps))
   \<longleftrightarrow> (\<exists>p\<in>set ps. p \<noteq> ''mem'' \<and> p \<noteq> ''imd'') \<and> (\<forall>p\<in>set ps. p \<noteq> ''mem'' \<and> p \<noteq> ''imd'' \<longrightarrow> p = reg)"
  by (auto simp: all_or_false_def list_all_iff filter_empty_conv)

lemma contains_length: "contains sub s \<Longrightarrow> length sub \<le> length s"
proof (induction s)
  case Nil
  then show ?case by simp
next
  case (Cons c cs)
  show ?case
  proof (cases "take (length sub) (c # cs) = sub")
    case True
    then have "length (take (length sub) (c # cs)) = length sub"
      by simp
    then show ?thesis by (simp del: take_Suc_Cons)
  next
    case False
    with Cons show ?thesis by simp
  qed
qed

lemma opmask_not_plain:
  assumes "contains ''{opmask}'' p"
  shows "p \<noteq> ''mem''" "p \<noteq> ''imd''" "p \<noteq> ''r64''" "p \<noteq> ''r32''" "p \<noteq> ''r16''" "p \<noteq> ''r8''"
  using contains_length[OF assms] by auto

lemma suffix_part:
  "set (concat (map (\<lambda>(s, reg).
              if \<not> endswith mnemonic [s]
                 \<and> all_or_false (map (\<lambda>p. p = reg)
                                  (filter (\<lambda>p. p \<notin> set [''mem'', ''imd'']) ps))
              then [(mnemonic @ [s], ps)] else []) suffixes))
   = {(mnemonic @ [s], ps) | s reg. (s, reg) \<in> set suffixes \<and> \<not> endswith mnemonic [s]
        \<and> (\<exists>p\<in>set ps. p \<noteq> ''mem'' \<and> p \<noteq> ''imd'') \<and> (\<forall>p\<in>set ps. p \<noteq> ''mem'' \<and> p \<noteq> ''imd'' \<longrightarrow> p = reg)}"
  unfolding all_or_false_eq by (auto split: if_splits)

lemma set_build_variants:
  "set (build_variants m ps) =
     {(upper m, ps)} \<union> (if list_ex (contains ''{opmask}'') ps then {(upper m, map (replace ''{opmask}'' '''') ps)} else {})
     \<union> {(upper m @ [s], ps) | s reg. (s, reg) \<in> set suffixes \<and> \<not> endswith (upper m) [s]
        \<and> (\<exists>p\<in>set ps. p \<noteq> ''mem'' \<and> p \<noteq> ''imd'') \<and> (\<forall>p\<in>set ps. p \<noteq> ''mem'' \<and> p \<noteq> ''imd'' \<longrightarrow> p = reg)}"
  unfolding build_variants_def Let_def set_append suffix_part by simp

text \<open>
  C8 (as amended). For every mnemonic and parameter-token list, \<open>build_variants\<close> yields
  first the uppercased mnemonic with the parameter list unchanged; it also yields that
  mnemonic with \<open>{opmask}\<close> replaced by nothing in every token when some token contains
  the marker; for each suffix S of Q, L, W, B with register token r64, r32, r16, r8 it
  yields mnemonic+S with the parameter list unchanged exactly when the mnemonic does not
  end with S, at least one token is neither \<open>mem\<close> nor \<open>imd\<close>, and every such
  token equals the register token of S; it yields nothing else; and when some token
  carries the marker it yields no suffixed mnemonic at all, so never a suffixed form of
  the stripped variant.
\<close>

theorem build_variants_yields:
  "hd (build_variants m ps) = (upper m, ps)
   \<and> (list_ex (contains ''{opmask}'') ps \<longrightarrow>
        (upper m, map (replace ''{opmask}'' '''') ps) \<in> set (build_variants m ps))
   \<and> (\<forall>(s, reg) \<in> set suffixes.
        (upper m @ [s], ps) \<in> set (build_variants m ps) \<longleftrightarrow>
          \<not> endswith (upper m) [s] \<and> (\<exists>p\<in>set ps. p \<noteq> ''mem'' \<and> p \<noteq> ''imd'')
          \<and> (\<forall>p\<in>set ps. p \<noteq> ''mem'' \<and> p \<noteq> ''imd'' \<longrightarrow> p = reg))
   \<and> (\<forall>(m', q) \<in> set (build_variants m ps).
        (m' = upper m \<and> (q = ps \<or> list_ex (contains ''{opmask}'') ps \<and> q = map (replace ''{opmask}'' '''') ps))
        \<or> (\<exists>(s, reg) \<in> set suffixes. m' = upper m @ [s] \<and> q = ps))
   \<and> (list_ex (contains ''{opmask}'') ps \<longrightarrow>
        (\<forall>s q. (upper m @ [s], q) \<notin> set (build_variants m ps)))"
proof (intro conjI)
  show "hd (build_variants m ps) = (upper m, ps)"
    by (simp add: build_variants_def Let_def)
  show "list_ex (contains ''{opmask}'') ps \<longrightarrow>
        (upper m, map (replace ''{opmask}'' '''') ps) \<in> set (build_variants m ps)"
    by (simp add: set_build_variants)
  show "\<forall>(s, reg) \<in> set suffixes.
        (upper m @ [s], ps) \<in> set (build_variants m ps) \<longleftrightarrow>
          \<not> endswith (upper m) [s] \<and> (\<exists>p\<in>set ps. p \<noteq> ''mem'' \<and> p \<noteq> ''imd'')
          \<and> (\<forall>p\<in>set ps. p \<noteq> ''mem'' \<and> p \<noteq> ''imd'' \<longrightarrow> p = reg)"
    unfolding set_build_variants by (auto simp: suffixes_def)
  show "\<forall>(m', q) \<in> set (build_variants m ps).
        (m' = upper m \<and> (q = ps \<or> list_ex (contains ''{opmask}'') ps \<and> q = map (replace ''{opmask}'' '''') ps))
        \<or> (\<exists>(s, reg) \<in> set suffixes. m' = upper m @ [s] \<and> q = ps)"
    unfolding set_build_variants by (auto split: if_splits)
  show "list_ex (contains ''{opmask}'') ps \<longrightarrow>
        (\<forall>s q. (upper m @ [s], q) \<notin> set (build_variants m ps))"
  proof (intro impI allI)
    fix s q assume "list_ex (contains ''{opmask}'') ps"
    then obtain p where p: "p \<in> set ps" "contains ''{opmask}'' p" by (auto simp: list_ex_iff)
    note np = opmask_not_plain[OF p(2)]
    show "(upper m @ [s], q) \<notin> set (build_variants m ps)"
      unfolding set_build_variants using p(1) np by (auto simp: suffixes_def split: if_splits)
  qed
qed

text \<open>
  The theorem at MOV with two 32-bit register tokens: MOVL is yielded, MOVQ is not.
\<close>

theorem build_variants_yields_witness:
  "(''MOVL'', [''r32'', ''r32'']) \<in> set (build_variants ''mov'' [''r32'', ''r32''])
   \<and> (''MOVQ'', [''r32'', ''r32'']) \<notin> set (build_variants ''mov'' [''r32'', ''r32''])"
  using build_variants_yields[of "''mov''" "[''r32'', ''r32'']"]
  by (simp add: suffixes_def upper_def upper_char_def endswith_def)

text \<open>
  C8 as stated fails where no token is a register: for INC with the single token
  \<open>mem\<close> the mnemonic does not end with Q and every token that is neither \<open>mem\<close>
  nor \<open>imd\<close> (there is none) equals r64, yet only the input pair is yielded, because
  \<open>all_or_false\<close> is False on the empty list.
\<close>

theorem build_variants_no_register_counterexample:
  "list_all (\<lambda>p. p = ''r64'') (filter (\<lambda>p. p \<notin> set [''mem'', ''imd'']) [''mem''])
   \<and> \<not> endswith (upper ''inc'') ''Q''
   \<and> build_variants ''inc'' [''mem''] = [(''INC'', [''mem''])]"
  by (simp add: build_variants_def suffixes_def upper_def upper_char_def endswith_def all_or_false_def)

section \<open>Properties of port_occupancy_from_tag_attributes\<close>














section \<open>Properties of extract_paramters\<close>

lemma split_not_Nil: "split sep s \<noteq> []"
  by (induction s) (auto split: list.splits)

lemma butlast_const: "butlast (c # map (\<lambda>_. c) xs) = map (\<lambda>_. c) xs"
  by (induction xs) auto

lemma parameter_loop_skip:
  "\<forall>p\<in>set pre. \<exists>n. suppressed p = Some n \<and> n \<noteq> 0 \<Longrightarrow>
   parameter_loop sizes (pre @ xs) ps = parameter_loop sizes xs ps"
  by (induction pre) auto

text \<open>
  C10. When the operands sort without error, every operand before the first one that is
  not suppressed is skipped, and that first operand is a register operand whose text
  contains \<open>{\<close> and whose alternatives all look up to the same (width, class) pair
  with a class other than GPR, then \<open>extract_paramters\<close> ends with an IndexError: line 74
  indexes the last element of the still empty list \<open>parameters\<close>. The IndexError is not
  the ValueError that the caller catches.
\<close>

theorem extract_paramters_mask_first:
  assumes tags: "parameter_tags instruction_tag = Inr (pre @ p # rest)"
    and pre: "\<forall>q\<in>set pre. \<exists>n. suppressed q = Some n \<and> n \<noteq> 0"
    and p: "suppressed p = Some 0" "map_of (attrib p) ''type'' = Some ''reg''"
    and tx: "etext p = Some raw" "CHR ''{'' \<in> set raw"
    and agree: "\<forall>r\<in>set (split CHR '','' raw). sizes (normalize_reg_name r) = Some (width, cls)"
    and cls: "cls \<noteq> ''GPR''"
  shows "extract_paramters sizes instruction_tag = Inl IndexError"
proof -
  obtain r rs where rs: "split CHR '','' raw = r # rs"
    using split_not_Nil[of "CHR '',''" raw] by (cases "split CHR '','' raw") auto
  have groups: "map (sizes \<circ> normalize_reg_name) (split CHR '','' raw)
                = Some (width, cls) # map (\<lambda>_. Some (width, cls)) rs"
    using agree unfolding rs by simp
  have "parameter_loop sizes (p # rest) [] = Inl IndexError"
    using p tx cls by (simp add: Let_def groups butlast_const del: butlast.simps)
  then show ?thesis
    using tags parameter_loop_skip[OF pre] by (simp add: extract_paramters_def)
qed

text \<open>
  The theorem at an instruction whose first operand is suppressed and whose second
  operand is the mask register \<open>{K1}\<close>.
\<close>

theorem extract_paramters_mask_first_witness:
  "extract_paramters example_sizes mask_first_instruction = Inl IndexError"
proof -
  have tags: "parameter_tags mask_first_instruction =
     Inr ([Element ''operand'' [(''idx'', ''1''), (''type'', ''reg''), (''suppressed'', ''1'')]
          (Some ''EAX'') []] @ operand ''2'' ''reg'' ''{K1}'' # [operand ''3'' ''mem'' ''''])"
    by code_simp
  show ?thesis
  proof (rule extract_paramters_mask_first[OF tags, where raw="''{K1}''" and width=64 and cls="''K''"])
    show "\<forall>q\<in>set [Element ''operand'' [(''idx'', ''1''), (''type'', ''reg''), (''suppressed'', ''1'')]
          (Some ''EAX'') []]. \<exists>n. suppressed q = Some n \<and> n \<noteq> 0"
    proof -
      have "suppressed (Element ''operand'' [(''idx'', ''1''), (''type'', ''reg''), (''suppressed'', ''1'')]
          (Some ''EAX'') []) = Some 1"
        by code_simp
      then show ?thesis by simp
    qed
    show "suppressed (operand ''2'' ''reg'' ''{K1}'') = Some 0" by code_simp
    show "map_of (attrib (operand ''2'' ''reg'' ''{K1}'')) ''type'' = Some ''reg''" by code_simp
    show "etext (operand ''2'' ''reg'' ''{K1}'') = Some ''{K1}''" by code_simp
    show "CHR ''{'' \<in> set ''{K1}''" by simp
    show "\<forall>r\<in>set (split CHR '','' ''{K1}''). example_sizes (normalize_reg_name r) = Some (64, ''K'')"
      by code_simp
    show "''K'' \<noteq> ''GPR''" by simp
  qed
qed

text \<open>
  C5, at a failing input: a register operand \<open>EAX,XMM0\<close>, whose alternatives are of
  classes GPR and XMM, followed by an immediate. The test of line 65 has no \<open>else\<close>:
  no exception is raised and no token is emitted for the operand, and the extraction goes
  on to the immediate.
\<close>

theorem extract_paramters_mixed_classes:
  "extract_paramters example_sizes mixed_classes_instruction = Inr [''imd'']"
  by code_simp

section \<open>Properties of extract_model\<close>

text \<open>
  C6, at a failing input: the first instruction of the document has an operand of an
  unknown type, so \<open>extract_paramters\<close> raises ValueError, which line 96 catches and
  prints; \<open>parameters\<close> has never been assigned, and line 133 ends the run with an
  UnboundLocalError.
\<close>

theorem extract_model_unknown_operand_first:
  "extract_model example_sizes unknown_operand_first_document ''SKL'' = Inl UnboundLocalError"
  by code_simp

text \<open>
  With the same two instructions in the other order the run goes on after the message,
  and the failing instruction is entered with the parameter list of the one before.
\<close>

lemma extract_model_unknown_operand_second:
  "extract_model example_sizes unknown_operand_second_document ''SKL'' = 
     Inr ([(''inc-r32'', 1, None, [(''0'', 1)]), (''incl-r32'', 1, None, [(''0'', 1)]),
           (''foo-r32'', 1, None, [(''0'', 1)]), (''fool-r32'', 1, None, [(''0'', 1)])], [ParameterError])"
  by code_simp

text \<open>
  C4, at a failing input: the only latency sub-record of the measurement carries a cycle
  count of 3, and the entries have no latency. Line 109 keeps the sub-records that have
  an attribute named \<open>latency\<close>, not those that have a \<open>cycles\<close> attribute.
\<close>

theorem extract_model_latency_ignored:
  "extract_model example_sizes latency_document ''SKL'' =
     Inr ([(''inc-r32'', 1, None, [(''0'', 1)]), (''incl-r32'', 1, None, [(''0'', 1)])], [])"
  by code_simp

section \<open>Properties of the reconciliation\<close>

text \<open>
  The test \<open>xs[1:] != xs[:-1]\<close> of lines 111 and 124 holds exactly when two elements
  of the list differ.
\<close>

lemma all_same_Cons2: "all_same (x # y # zs) \<longleftrightarrow> x = y \<and> all_same (y # zs)"
  by (auto simp: all_same_def)

lemma all_same_iff: "all_same xs \<longleftrightarrow> (\<forall>x\<in>set xs. \<forall>y\<in>set xs. x = y)"
proof (induction xs rule: induct_list012)
  case 1
  show ?case by (simp add: all_same_def)
next
  case (2 x)
  show ?case by (simp add: all_same_def)
next
  case (3 x y zs)
  show ?case unfolding all_same_Cons2 "3.IH"(2) by auto
qed

lemma all_same_dicts_Cons2:
  "all_same_dicts (x # y # zs) \<longleftrightarrow> dict_eq y x \<and> all_same_dicts (y # zs)"
  by (auto simp: all_same_dicts_def)

lemma all_same_dicts_iff:
  "all_same_dicts xs \<longleftrightarrow> (\<forall>x\<in>set xs. \<forall>y\<in>set xs. dict_eq x y)"
proof (induction xs rule: induct_list012)
  case 1
  show ?case by (simp add: all_same_dicts_def)
next
  case (2 x)
  show ?case by (simp add: all_same_dicts_def dict_eq_def)
next
  case (3 x y zs)
  show ?case unfolding all_same_dicts_Cons2 "3.IH"(2) by (auto simp: dict_eq_def)
qed

lemma py_max_Max: "py_max xs = Inr m \<longrightarrow> xs \<noteq> [] \<and> m = Max (set xs)"
proof (cases xs)
  case Nil
  then show ?thesis by simp
next
  case (Cons a list)
  have "Max (set (a # list)) = fold max list a" by (rule Max.set_eq_fold)
  with Cons show ?thesis by auto
qed

lemma measurement_loop_ignore:
  "measurement_loop arch mn ms c = Inr c' \<Longrightarrow>
   ignore c' \<longleftrightarrow> ignore c \<or> (\<exists>m\<in>set ms. \<exists>ls. latencies_of m = Inr ls \<and> \<not> all_same ls)"
proof (induction ms arbitrary: c)
  case Nil
  then show ?case by simp
next
  case (Cons m ms)
  from Cons.prems obtain po ls where po: "port_occupancy_from_tag_attributes (attrib m) arch = Inr po"
    and ls: "latencies_of m = Inr ls"
    by (auto split: sum.splits)
  show ?case
  proof (cases "all_same ls")
    case True
    with Cons.prems po ls have "measurement_loop arch mn ms
        (if ls \<noteq> [] then c\<lparr>port_occupancy := port_occupancy c @ [po], latency := Some (hd ls)\<rparr>
         else c\<lparr>port_occupancy := port_occupancy c @ [po]\<rparr>) = Inr c'"
      by simp
    from Cons.IH[OF this] True ls show ?thesis by auto
  next
    case False
    with Cons.prems po ls have "measurement_loop arch mn ms
        (c\<lparr>port_occupancy := port_occupancy c @ [po], ignore := True,
           printed := printed c @ [ContradictingLatencies mn]\<rparr>) = Inr c'"
      by simp
    from Cons.IH[OF this] False ls show ?thesis by auto
  qed
qed

lemma measurement_loop_printed:
  "measurement_loop arch mn ms c = Inr c' \<Longrightarrow>
   set (printed c') = set (printed c) \<union>
     (if \<exists>m\<in>set ms. \<exists>ls. latencies_of m = Inr ls \<and> \<not> all_same ls
      then {ContradictingLatencies mn} else {})"
proof (induction ms arbitrary: c)
  case Nil
  then show ?case by simp
next
  case (Cons m ms)
  from Cons.prems obtain po ls where po: "port_occupancy_from_tag_attributes (attrib m) arch = Inr po"
    and ls: "latencies_of m = Inr ls"
    by (auto split: sum.splits)
  show ?case
  proof (cases "all_same ls")
    case True
    with Cons.prems po ls have "measurement_loop arch mn ms
        (if ls \<noteq> [] then c\<lparr>port_occupancy := port_occupancy c @ [po], latency := Some (hd ls)\<rparr>
         else c\<lparr>port_occupancy := port_occupancy c @ [po]\<rparr>) = Inr c'"
      by simp
    from Cons.IH[OF this] True ls show ?thesis by auto
  next
    case False
    with Cons.prems po ls have "measurement_loop arch mn ms
        (c\<lparr>port_occupancy := port_occupancy c @ [po], ignore := True,
           printed := printed c @ [ContradictingLatencies mn]\<rparr>) = Inr c'"
      by simp
    from Cons.IH[OF this] False ls show ?thesis by auto
  qed
qed

lemma measurement_loop_vectors:
  "measurement_loop arch mn ms c = Inr c' \<Longrightarrow>
   \<exists>vecs. mapM (\<lambda>m. port_occupancy_from_tag_attributes (attrib m) arch) ms = Inr vecs
          \<and> port_occupancy c' = port_occupancy c @ vecs"
proof (induction ms arbitrary: c)
  case Nil
  then show ?case by simp
next
  case (Cons m ms)
  from Cons.prems obtain po ls where po: "port_occupancy_from_tag_attributes (attrib m) arch = Inr po"
    and ls: "latencies_of m = Inr ls"
    by (auto split: sum.splits)
  let ?c = "if \<not> all_same ls
                  then c\<lparr>port_occupancy := port_occupancy c @ [po], ignore := True,
                         printed := printed c @ [ContradictingLatencies mn]\<rparr>
                  else if ls \<noteq> []
                  then c\<lparr>port_occupancy := port_occupancy c @ [po], latency := Some (hd ls)\<rparr>
                  else c\<lparr>port_occupancy := port_occupancy c @ [po]\<rparr>"
  from Cons.prems po ls have "measurement_loop arch mn ms ?c = Inr c'" by simp
  from Cons.IH[OF this] obtain vecs where
    "mapM (\<lambda>m. port_occupancy_from_tag_attributes (attrib m) arch) ms = Inr vecs"
    "port_occupancy c' = port_occupancy ?c @ vecs" by blast
  then show ?case using po by (auto split: if_splits)
qed

lemma collect_ignore:
  assumes "collect arch mn arch_tag = Inr c"
  shows "ignore c \<longleftrightarrow>
           (\<exists>m\<in>set (iter ''measurement'' arch_tag). \<exists>ls. latencies_of m = Inr ls \<and> \<not> all_same ls)"
    and "set (printed c) =
           (if \<exists>m\<in>set (iter ''measurement'' arch_tag). \<exists>ls. latencies_of m = Inr ls \<and> \<not> all_same ls
            then {ContradictingLatencies mn} else {})"
proof -
  from assms obtain c0 where c0: "measurement_loop arch mn (iter ''measurement'' arch_tag)
             \<lparr>port_occupancy = [], latency = None, ignore = False, printed = []\<rparr> = Inr c0"
    and c: "ignore c = ignore c0" "printed c = printed c0"
    by (auto simp: collect_def split: sum.splits)
  show "ignore c \<longleftrightarrow>
           (\<exists>m\<in>set (iter ''measurement'' arch_tag). \<exists>ls. latencies_of m = Inr ls \<and> \<not> all_same ls)"
    using measurement_loop_ignore[OF c0] c by simp
  show "set (printed c) =
           (if \<exists>m\<in>set (iter ''measurement'' arch_tag). \<exists>ls. latencies_of m = Inr ls \<and> \<not> all_same ls
            then {ContradictingLatencies mn} else {})"
    using measurement_loop_printed[OF c0] c by simp
qed

lemma reconcile_cases:
  assumes "reconcile arch mn arch_tag = Inr (msgs, r)"
  obtains c where "collect arch mn arch_tag = Inr c" "ignore c \<or> port_occupancy c = []"
      "msgs = printed c" "r = None"
  | c throughput where "collect arch mn arch_tag = Inr c" "\<not> ignore c" "port_occupancy c \<noteq> []"
      "py_max (map snd (last (port_occupancy c)) @ [0]) = Inr throughput"
      "msgs = printed c @ (if \<not> all_same_dicts (port_occupancy c) then [ContradictingPorts mn] else [])"
      "r = Some (throughput, latency c, last (port_occupancy c))"
  using assms unfolding reconcile_def
  by (auto split: sum.splits if_splits)

lemma reconcile_throughput:
  assumes "reconcile arch mn arch_tag = Inr (msgs, Some (throughput, lat, po))"
  shows "throughput = Max (insert 0 (snd ` set po))"
  using assms
proof (cases rule: reconcile_cases)
  case (1 c)
  then show ?thesis by simp
next
  case (2 c t)
  then have "py_max (map snd po @ [0]) = Inr throughput" by simp
  with py_max_Max[of "map snd po @ [0]" throughput] show ?thesis by simp
qed

lemma try_parameters_model_data:
  "try_parameters sizes i st = Inr st1 \<Longrightarrow> model_data st1 = model_data st"
  by (auto simp: try_parameters_def split: sum.splits if_splits)

lemma append_entries_cases:
  assumes "append_entries arch mn i st = Inr st'"
  obtains "find_architecture arch i = None" "st' = st"
  | arch_tag msgs where "find_architecture arch i = Some arch_tag"
      "reconcile arch mn arch_tag = Inr (msgs, None)" "st' = st\<lparr>stderr := stderr st @ msgs\<rparr>"
  | arch_tag msgs throughput lat po ps where "find_architecture arch i = Some arch_tag"
      "reconcile arch mn arch_tag = Inr (msgs, Some (throughput, lat, po))"
      "parameters st = Some ps"
      "st' = st\<lparr>stderr := stderr st @ msgs,
                 model_data := model_data st @
                   map (\<lambda>(m, p). (lower m @ ''-'' @ join ''_'' p, throughput, lat, po))
                     (build_variants mn ps)\<rparr>"
  using assms unfolding append_entries_def
  by (auto split: option.splits sum.splits)

lemma extract_instruction_cases:
  assumes "extract_instruction sizes arch i st = Inr st'"
  obtains mn st1 where "map_of (attrib i) ''asm'' = Some mn"
    "try_parameters sizes i st = Inr st1" "append_entries arch mn i st1 = Inr st'"
  using assms unfolding extract_instruction_def
  by (auto split: option.splits sum.splits)

lemma extract_instruction_derived:
  assumes "extract_instruction sizes arch i st = Inr st'" "\<forall>e\<in>set (model_data st). derived e"
  shows "\<forall>e\<in>set (model_data st'). derived e"
  using assms(1)
proof (cases rule: extract_instruction_cases)
  case (1 mn st1)
  note md = try_parameters_model_data[OF 1(2)]
  from 1(3) show ?thesis
  proof (cases rule: append_entries_cases)
    case 1
    with md assms(2) show ?thesis by simp
  next
    case (2 arch_tag msgs)
    with md assms(2) show ?thesis by simp
  next
    case (3 arch_tag msgs throughput lat po ps)
    from reconcile_throughput[OF 3(2)] 3(4) md assms(2) show ?thesis
      by (auto simp: derived_def)
  qed
qed

lemma instruction_loop_derived:
  "instruction_loop sizes arch is st = Inr st' \<Longrightarrow> \<forall>e\<in>set (model_data st). derived e \<Longrightarrow>
   \<forall>e\<in>set (model_data st'). derived e"
proof (induction "is" arbitrary: st)
  case Nil
  then show ?case by simp
next
  case (Cons i "is")
  from Cons.prems(1) obtain st1 where s1: "extract_instruction sizes arch i st = Inr st1"
    and s2: "instruction_loop sizes arch is st1 = Inr st'"
    by (auto split: sum.splits)
  from Cons.IH[OF s2 extract_instruction_derived[OF s1 Cons.prems(2)]] show ?case .
qed

text \<open>
  C3. Every entry of the table that \<open>extract_model\<close> returns has as its throughput
  the maximum of 0.0 and the occupancy values of its own port-occupancy vector, which is
  0.0 when the vector is empty and the largest occupancy when the occupancies are not
  negative: line 128 is the only assignment of the throughput of an entry, and no
  measured field enters it.
\<close>

theorem throughput_derived:
  assumes "extract_model sizes tree arch = Inr (md, msgs)"
    and "(name, throughput, lat, po) \<in> set md"
  shows "throughput = Max (insert 0 (snd ` set po))
         \<and> (po = [] \<longrightarrow> throughput = 0)
         \<and> (po \<noteq> [] \<and> (\<forall>v\<in>snd ` set po. 0 \<le> v) \<longrightarrow> throughput = Max (snd ` set po))"
proof -
  from assms(1) obtain st where "instruction_loop sizes arch (findall_descendants ''instruction'' tree)
             \<lparr>model_data = [], parameters = None, stderr = []\<rparr> = Inr st" and "md = model_data st"
    by (auto simp: extract_model_def split: sum.splits)
  from instruction_loop_derived[OF this(1)] this(2) assms(2)
  have "derived (name, throughput, lat, po)" by simp
  then have t: "throughput = Max (insert 0 (snd ` set po))" by (simp add: derived_def)
  have "Max (insert 0 (snd ` set po)) = Max (snd ` set po)"
    if "po \<noteq> []" "\<forall>v\<in>snd ` set po. 0 \<le> v"
  proof -
    from that(1) have ne: "snd ` set po \<noteq> {}" by simp
    then have "Max (snd ` set po) \<in> snd ` set po" by (intro Max_in) simp_all
    with that(2) have "0 \<le> Max (snd ` set po)" by blast
    with ne show ?thesis by (simp add: max_def)
  qed
  with t show ?thesis by auto
qed

text \<open>
  The theorem at an instruction with a counter of 3 on ports 2 and 3 and a counter of 1
  on port 0: the throughput 3/2 of its entry is the largest occupancy of its vector.
\<close>

theorem throughput_derived_witness:
  "\<exists>md msgs. extract_model example_sizes split_ports_document ''SKL'' = Inr (md, msgs)
      \<and> (''mov-r32_mem'', 3 / 2, None, [(''2'', 3 / 2), (''3'', 3 / 2), (''0'', 1)]) \<in> set md
      \<and> (3 / 2 :: rat) = Max (insert 0 (snd ` set [(''2'', 3 / 2), (''3'', 3 / 2), (''0'', 1 :: rat)]))"
proof -
  have e: "extract_model example_sizes split_ports_document ''SKL'' =
      Inr ([(''mov-r32_mem'', 3 / 2, None, [(''2'', 3 / 2), (''3'', 3 / 2), (''0'', 1)]),
            (''movl-r32_mem'', 3 / 2, None, [(''2'', 3 / 2), (''3'', 3 / 2), (''0'', 1)])], [])"
    by code_simp
  have "(''mov-r32_mem'', 3 / 2, None, [(''2'', 3 / 2), (''3'', 3 / 2), (''0'', 1)]) \<in>
      set [(''mov-r32_mem'', 3 / 2, None, [(''2'', 3 / 2 :: rat), (''3'', 3 / 2), (''0'', 1)]),
            (''movl-r32_mem'', 3 / 2, None :: int option, [(''2'', 3 / 2), (''3'', 3 / 2), (''0'', 1)])]"
    by simp
  from throughput_derived[OF e this] e show ?thesis by simp
qed

text \<open>
  C1 (as amended). When the body of the loop returns for an instruction one of whose
  measurement records on the architecture has two latency samples that differ, it has
  printed the latency contradiction on the diagnostic stream and has left the table as it
  was: lines 113 and 120 exclude the instruction from the model, and the loop goes on
  with the next instruction.
\<close>

theorem latency_contradiction_excludes:
  assumes "extract_instruction sizes arch i st = Inr st'"
    and "map_of (attrib i) ''asm'' = Some mn"
    and "find_architecture arch i = Some arch_tag"
    and "m \<in> set (iter ''measurement'' arch_tag)" "latencies_of m = Inr ls"
    and "x \<in> set ls" "y \<in> set ls" "x \<noteq> y"
  shows "ContradictingLatencies mn \<in> set (stderr st') \<and> model_data st' = model_data st"
  using assms(1)
proof (cases rule: extract_instruction_cases)
  case (1 mn' st1)
  with assms(2) have mn': "mn' = mn" by simp
  note md = try_parameters_model_data[OF 1(2)]
  from assms(6-8) have ns: "\<not> all_same ls" unfolding all_same_iff by blast
  have ex: "\<exists>m\<in>set (iter ''measurement'' arch_tag). \<exists>ls. latencies_of m = Inr ls \<and> \<not> all_same ls"
    using assms(4,5) ns by blast
  from 1(3)[unfolded mn'] show ?thesis
  proof (cases rule: append_entries_cases)
    case 1
    with assms(3) show ?thesis by simp
  next
    case (2 tag msgs)
    with assms(3) have r: "reconcile arch mn arch_tag = Inr (msgs, None)" by simp
    from r obtain c where c: "collect arch mn arch_tag = Inr c" "msgs = printed c"
      by (cases rule: reconcile_cases) auto
    from collect_ignore(2)[OF c(1)] ex c(2) have "ContradictingLatencies mn \<in> set msgs" by simp
    with 2(3) md show ?thesis by simp
  next
    case (3 tag msgs throughput lat po ps)
    with assms(3) have r: "reconcile arch mn arch_tag = Inr (msgs, Some (throughput, lat, po))" by simp
    from r obtain c where c: "collect arch mn arch_tag = Inr c" "\<not> ignore c"
      by (cases rule: reconcile_cases) auto
    with collect_ignore(1)[OF c(1)] ex show ?thesis by simp
  qed
qed

text \<open>
  The theorem at an instruction whose measurement has latency samples 1 and 2.
\<close>

theorem latency_contradiction_excludes_witness:
  "\<exists>st'. extract_instruction example_sizes ''SKL'' contradicting_instruction
            \<lparr>model_data = [], parameters = None, stderr = []\<rparr> = Inr st'
     \<and> ContradictingLatencies ''INC'' \<in> set (stderr st') \<and> model_data st' = []"
proof -
  have e: "extract_instruction example_sizes ''SKL'' contradicting_instruction
            \<lparr>model_data = [], parameters = None, stderr = []\<rparr>
         = Inr \<lparr>model_data = [], parameters = Some [''r32''], stderr = [ContradictingLatencies ''INC'']\<rparr>"
    by code_simp
  have a: "map_of (attrib contradicting_instruction) ''asm'' = Some ''INC''" by code_simp
  have f: "find_architecture ''SKL'' contradicting_instruction = Some contradicting_architecture"
    by code_simp
  have m: "Element ''measurement'' [(''port0'', ''1'')] None
          [Element ''latency'' [(''latency'', ''''), (''cycles'', ''1'')] None [],
           Element ''latency'' [(''latency'', ''''), (''cycles'', ''2'')] None []]
        \<in> set (iter ''measurement'' contradicting_architecture)"
    by code_simp
  have l: "latencies_of (Element ''measurement'' [(''port0'', ''1'')] None
          [Element ''latency'' [(''latency'', ''''), (''cycles'', ''1'')] None [],
           Element ''latency'' [(''latency'', ''''), (''cycles'', ''2'')] None []]) = Inr [1, 2]"
    by code_simp
  from latency_contradiction_excludes[OF e a f m l, of 1 2] e show ?thesis by simp
qed

text \<open>
  C1 as stated fails on that instruction: the document holds it and a second, well-formed
  instruction; the contradiction is printed and the table has the entries of the second
  instruction only, none for the first.
\<close>

theorem latency_contradiction_counterexample:
  "extract_model example_sizes contradicting_document ''SKL'' =
     Inr ([(''not-r32'', 1, None, [(''0'', 1)]), (''notl-r32'', 1, None, [(''0'', 1)])],
          [ContradictingLatencies ''INC''])"
  by code_simp

section \<open>The authoritative port-occupancy vector\<close>

lemma mapM_all2: "mapM f xs = Inr ys \<Longrightarrow> list_all2 (\<lambda>x y. f x = Inr y) xs ys"
  by (induction xs arbitrary: ys) (auto split: sum.splits)

lemma sorted_iaca_spec:
  assumes "sorted_iaca arch_tag = Inr tags"
  shows "\<exists>keys. mset tags = mset (iter ''IACA'' arch_tag)
           \<and> list_all2 (\<lambda>t k. \<exists>v. map_of (attrib t) ''version'' = Some v \<and> StrictVersion v = Some k)
                tags keys
           \<and> sorted keys"
proof -
  let ?f = "\<lambda>i. case map_of (attrib i) ''version'' of
                   None \<Rightarrow> Inl KeyError
                 | Some v \<Rightarrow> (case StrictVersion v of None \<Rightarrow> Inl ValueError | Some k \<Rightarrow> Inr k)"
  let ?xs = "iter ''IACA'' arch_tag"
  from assms obtain ks where ks: "mapM ?f ?xs = Inr ks"
    and tags: "tags = map snd (sort_key fst (zip ks ?xs))"
    by (auto simp: sorted_iaca_def Let_def split: sum.splits)
  let ?zs = "sort_key fst (zip ks ?xs)"
  from mapM_all2[OF ks] have a2: "list_all2 (\<lambda>x k. ?f x = Inr k) ?xs ks" .
  then have len: "length ?xs = length ks" by (rule list_all2_lengthD)
  have "mset (map snd ?zs) = mset (map snd (zip ks ?xs))" by simp
  also have "\<dots> = mset ?xs" using len by simp
  finally have perm: "mset tags = mset ?xs" by (simp only: tags)
  from a2 have "list_all2 (\<lambda>k x. ?f x = Inr k) ks ?xs"
    by (simp add: list_all2_conv_all_nth)
  then have z: "\<forall>(k, x)\<in>set (zip ks ?xs). ?f x = Inr k"
    by (simp add: list_all2_iff)
  have f: "\<exists>v. map_of (attrib x) ''version'' = Some v \<and> StrictVersion v = Some k"
    if "?f x = Inr k" for x k
    using that by (auto split: option.splits)
  have rel: "\<forall>z\<in>set ?zs. \<exists>v. map_of (attrib (snd z)) ''version'' = Some v
                                   \<and> StrictVersion v = Some (fst z)"
  proof
    fix z assume "z \<in> set ?zs"
    then have "z \<in> set (zip ks ?xs)" by simp
    with z have "?f (snd z) = Inr (fst z)" by (cases z) auto
    then show "\<exists>v. map_of (attrib (snd z)) ''version'' = Some v \<and> StrictVersion v = Some (fst z)"
      by (rule f)
  qed
  have "list_all2 (\<lambda>t k. \<exists>v. map_of (attrib t) ''version'' = Some v \<and> StrictVersion v = Some k)
          (map snd ?zs) (map fst ?zs)"
    using rel by (simp add: list_all2_map1 list_all2_map2 list_all2_same)
  moreover have "sorted (map fst ?zs)" by (rule sorted_sort_key)
  ultimately show ?thesis using perm tags by blast
qed

lemma collect_vectors:
  assumes "collect arch mn arch_tag = Inr c"
  shows "\<exists>mvecs tags ivecs.
           mapM (\<lambda>m. port_occupancy_from_tag_attributes (attrib m) arch)
             (iter ''measurement'' arch_tag) = Inr mvecs
           \<and> sorted_iaca arch_tag = Inr tags
           \<and> mapM (\<lambda>t. port_occupancy_from_tag_attributes (attrib t) arch) tags = Inr ivecs
           \<and> port_occupancy c = mvecs @ ivecs"
proof -
  from assms obtain c0 tags ivecs where
    c0: "measurement_loop arch mn (iter ''measurement'' arch_tag)
             \<lparr>port_occupancy = [], latency = None, ignore = False, printed = []\<rparr> = Inr c0"
    and tags: "sorted_iaca arch_tag = Inr tags"
    and ivecs: "mapM (\<lambda>t. port_occupancy_from_tag_attributes (attrib t) arch) tags = Inr ivecs"
    and c: "port_occupancy c = port_occupancy c0 @ ivecs"
    by (auto simp: collect_def split: sum.splits)
  from measurement_loop_vectors[OF c0] c tags ivecs show ?thesis by auto
qed

lemma version_order:
  "\<exists>a b. StrictVersion ''2.0'' = Some a \<and> StrictVersion ''2.1'' = Some b \<and> a < b"
proof -
  have "StrictVersion ''2.0'' = Some [2, 0, 0, 1, 0, 0]" "StrictVersion ''2.1'' = Some [2, 1, 0, 1, 0, 0]"
    by code_simp+
  moreover have "[2, 0, 0, 1, 0, 0] < [2, 1, 0, 1, 0, 0 :: nat]" by simp
  ultimately show ?thesis by blast
qed

text \<open>
  C2 (as amended). When the reconciliation of an instruction returns and none of its
  measurement records has latency samples that differ, the collected vectors are those of
  the measurement records in document order followed by those of the analyzer records in
  ascending order of version (the records sorted are a permutation of the analyzer
  records, with ascending version keys); when at least one vector was collected the last
  one of that sequence is the authoritative vector of the result, and when two collected
  vectors differ the port contradiction is printed. Version 2.0 is below version 2.1.
\<close>

theorem reconcile_selects_last:
  assumes "reconcile arch mn arch_tag = Inr (msgs, r)"
    and "\<forall>m\<in>set (iter ''measurement'' arch_tag). \<forall>ls. latencies_of m = Inr ls \<longrightarrow> all_same ls"
  shows "\<exists>mvecs tags keys ivecs.
           mapM (\<lambda>m. port_occupancy_from_tag_attributes (attrib m) arch)
             (iter ''measurement'' arch_tag) = Inr mvecs
           \<and> mset tags = mset (iter ''IACA'' arch_tag)
           \<and> list_all2 (\<lambda>t k. \<exists>v. map_of (attrib t) ''version'' = Some v \<and> StrictVersion v = Some k)
                tags keys
           \<and> sorted keys
           \<and> mapM (\<lambda>t. port_occupancy_from_tag_attributes (attrib t) arch) tags = Inr ivecs
           \<and> (mvecs @ ivecs \<noteq> [] \<longrightarrow>
                (\<exists>throughput lat. r = Some (throughput, lat, last (mvecs @ ivecs))))
           \<and> ((\<exists>a\<in>set (mvecs @ ivecs). \<exists>b\<in>set (mvecs @ ivecs). \<not> dict_eq a b) \<longrightarrow>
                ContradictingPorts mn \<in> set msgs)
           \<and> (\<exists>a b. StrictVersion ''2.0'' = Some a \<and> StrictVersion ''2.1'' = Some b \<and> a < b)"
proof -
  from assms(1) obtain c where c: "collect arch mn arch_tag = Inr c"
    by (cases rule: reconcile_cases) auto
  from collect_ignore(1)[OF c] assms(2) have ni: "\<not> ignore c" by blast
  from collect_vectors[OF c] obtain mvecs tags ivecs where
    mvecs: "mapM (\<lambda>m. port_occupancy_from_tag_attributes (attrib m) arch)
             (iter ''measurement'' arch_tag) = Inr mvecs"
    and tags: "sorted_iaca arch_tag = Inr tags"
    and ivecs: "mapM (\<lambda>t. port_occupancy_from_tag_attributes (attrib t) arch) tags = Inr ivecs"
    and po: "port_occupancy c = mvecs @ ivecs"
    by blast
  from sorted_iaca_spec[OF tags] obtain keys where
    keys: "mset tags = mset (iter ''IACA'' arch_tag)"
      "list_all2 (\<lambda>t k. \<exists>v. map_of (attrib t) ''version'' = Some v \<and> StrictVersion v = Some k) tags keys"
      "sorted keys"
    by blast
  have sel: "mvecs @ ivecs \<noteq> [] \<longrightarrow>
                (\<exists>throughput lat. r = Some (throughput, lat, last (mvecs @ ivecs)))"
    using assms(1) c ni po by (cases rule: reconcile_cases) auto
  have rep: "(\<exists>a\<in>set (mvecs @ ivecs). \<exists>b\<in>set (mvecs @ ivecs). \<not> dict_eq a b) \<longrightarrow>
                ContradictingPorts mn \<in> set msgs"
  proof
    assume d: "\<exists>a\<in>set (mvecs @ ivecs). \<exists>b\<in>set (mvecs @ ivecs). \<not> dict_eq a b"
    then have ne: "port_occupancy c \<noteq> []" and ns: "\<not> all_same_dicts (port_occupancy c)"
      unfolding all_same_dicts_iff po by auto
    from assms(1) c ni ne ns show "ContradictingPorts mn \<in> set msgs"
      by (cases rule: reconcile_cases) auto
  qed
  from mvecs keys ivecs sel rep version_order show ?thesis by blast
qed

text \<open>
  The theorem at two analyzer records with differing vectors, version 2.1 standing before
  version 2.0 in the document: the contradiction is printed and the authoritative vector
  is that of version 2.1.
\<close>

theorem reconcile_selects_last_witness:
  "\<exists>msgs throughput lat.
     reconcile ''SKL'' ''INC'' two_versions_architecture =
       Inr (msgs, Some (throughput, lat, [(''0'', 1)]))
     \<and> ContradictingPorts ''INC'' \<in> set msgs"
proof -
  have e: "reconcile ''SKL'' ''INC'' two_versions_architecture =
       Inr ([ContradictingPorts ''INC''], Some (1, None, [(''0'', 1)]))"
    by code_simp
  have "iter ''measurement'' two_versions_architecture = []" by code_simp
  then have h: "\<forall>m\<in>set (iter ''measurement'' two_versions_architecture).
                 \<forall>ls. latencies_of m = Inr ls \<longrightarrow> all_same ls"
    by simp
  from reconcile_selects_last[OF e h] e show ?thesis by simp
qed

text \<open>
  C2 as stated fails for an instruction that has a latency contradiction: its measurement
  vector and its analyzer vector differ, but line 120 leaves the loop body before line
  124, so no port contradiction is printed and no vector is selected.
\<close>

theorem reconcile_skips_port_check_counterexample:
  "mapM (\<lambda>t. port_occupancy_from_tag_attributes (attrib t) ''SKL'')
     (iter ''measurement'' contradicting_architecture @ iter ''IACA'' contradicting_architecture)
     = Inr [[(''0'', 1)], [(''1'', 1)]]
   \<and> \<not> dict_eq [(''0'', 1 :: rat)] [(''1'', 1)]
   \<and> reconcile ''SKL'' ''INC'' contradicting_architecture = Inr ([ContradictingLatencies ''INC''], None)"
proof (intro conjI)
  show "mapM (\<lambda>t. port_occupancy_from_tag_attributes (attrib t) ''SKL'')
     (iter ''measurement'' contradicting_architecture @ iter ''IACA'' contradicting_architecture)
     = Inr [[(''0'', 1)], [(''1'', 1)]]"
    by code_simp
  show "\<not> dict_eq [(''0'', 1 :: rat)] [(''1'', 1)]"
    by (simp add: dict_eq_def)
  show "reconcile ''SKL'' ''INC'' contradicting_architecture = Inr ([ContradictingLatencies ''INC''], None)"
    by code_simp
qed

section \<open>Properties of dump_csv\<close>































end
